theory Spec2Isabelle
  imports Main "HOL-Library.Sublist" "HOL-Library.Word"
begin

section \<open>The logger package: data model\<close>

text \<open>
  The Go package \<open>logger\<close> has a \<open>Config\<close> struct with the single field
  \<open>IsDebugMode\<close>, and a \<open>Logger\<close> struct holding the cache (a Go map from
  \<open>time.Time\<close> to \<open>string\<close>), a mutex and a pointer to the config.

  A Go map value is either nil or an initialised map; writing to a nil map panics. The
  cache is therefore an optional partial map: \<open>None\<close> is the nil map of the zero-value
  \<open>Logger\<close>, \<open>Some m\<close> an initialised one. The config pointer is an optional \<open>Config\<close>
  (\<open>None\<close> is nil). The field \<open>c\<close> of the source is called \<open>cfg\<close> here, since a
  one-letter constant would capture the variables of every statement.

  The mutex \<open>cMu\<close> is private and is taken and released only inside \<open>addCache\<close>, so
  between two calls it is always free; in this sequential model \<open>Lock\<close> followed by the
  deferred \<open>Unlock\<close> leaves it as it was and the field carries no information.
\<close>

record Config =
  IsDebugMode :: bool

text \<open>
  \<open>time.Time\<close> is a struct of a wall-clock word, a monotonic or extended reading and a
  location pointer; as a map key two instants are the same key when all three agree.
\<close>

record gtime =
  wall :: "64 word"
  ext :: "64 word"
  loc :: "nat option"

record Logger =
  cache :: "(gtime \<rightharpoonup> string) option"
  cfg :: "Config option"

text \<open>The one run-time panic the package can raise: assignment to an entry of a nil map.\<close>

datatype panic = NilMapAssignment

text \<open>
  What a call does besides changing the logger: bytes written to standard output, and a
  call of the package-level function \<open>Error\<close> with its argument list.
\<close>

datatype gval = VString string | VInt int | VBool bool | VError string | VNil

datatype effect = Stdout string | PkgError "gval list"

section \<open>The Go library functions the package calls\<close>

text \<open>\<open>strconv.Itoa\<close>: the decimal rendering of an integer.\<close>

fun digits :: "nat \<Rightarrow> string" where
  "digits n =
     (if n < 10 then [''0123456789'' ! n]
      else digits (n div 10) @ [''0123456789'' ! (n mod 10)])"

declare digits.simps [simp del]

definition Itoa :: "int \<Rightarrow> string" where
  "Itoa i = (if i < 0 then CHR ''-'' # digits (nat (- i)) else digits (nat i))"

text \<open>
  \<open>fmt.Sprint\<close>: every operand in its default format, with a space between two
  operands when neither of them is a string (the loop of \<open>doPrint\<close> in package
  \<open>fmt\<close>, which carries the operand index and whether the previous operand was a
  string).
\<close>

fun isString :: "gval \<Rightarrow> bool" where
  "isString (VString s) = True"
| "isString v = False"

fun printArg :: "gval \<Rightarrow> string" where
  "printArg (VString s) = s"
| "printArg (VInt i) = Itoa i"
| "printArg (VBool b) = (if b then ''true'' else ''false'')"
| "printArg (VError s) = s"
| "printArg VNil = ''<nil>''"

fun doPrint :: "nat \<Rightarrow> bool \<Rightarrow> gval list \<Rightarrow> string" where
  "doPrint argNum prevString [] = []"
| "doPrint argNum prevString (arg # rest) =
     (if argNum > 0 \<and> \<not> isString arg \<and> \<not> prevString then '' '' else [])
     @ printArg arg @ doPrint (argNum + 1) (isString arg) rest"

definition Sprint :: "gval list \<Rightarrow> string" where
  "Sprint args = doPrint 0 False args"

text \<open>
  \<open>fmt.Println\<close>: every operand in its default format, always a space between two
  operands, and a newline at the end.
\<close>

fun doPrintln :: "gval list \<Rightarrow> string" where
  "doPrintln [] = [CHR 0x0A]"
| "doPrintln [arg] = printArg arg @ [CHR 0x0A]"
| "doPrintln (arg # rest) = printArg arg @ '' '' @ doPrintln rest"

definition Println :: "gval list \<Rightarrow> effect list" where
  "Println args = [Stdout (doPrintln args)]"

text \<open>
  What a call reads from the runtime and the clock: the result of
  \<open>runtime.Caller(1)\<close> (program counter, file, line and the flag \<open>ok\<close>, which is
  false when the frame could not be recovered), the table behind
  \<open>runtime.FuncForPC\<close> (the name of the function at a program counter, \<open>None\<close> where
  it returns nil), the strings that the package's helpers \<open>getCurrentDate()\<close> and
  \<open>getCurrentTime()\<close> return, and the instant \<open>time.Now()\<close>. The methods ignore the
  file and the flag \<open>ok\<close>.
\<close>

record env =
  caller :: "nat \<times> string \<times> int \<times> bool"
  funcForPC :: "nat \<rightharpoonup> string"
  currentDate :: string
  currentTime :: string
  now :: gtime

text \<open>\<open>(*runtime.Func).Name\<close> returns the empty string on a nil receiver.\<close>

fun Name :: "string option \<Rightarrow> string" where
  "Name None = []"
| "Name (Some n) = n"

text \<open>
  The styling helpers \<open>formatText\<close> and \<open>formatTextExt\<close> and the style constants they
  are called with are declared in another file of the package; here they are parameters
  of every method. The package-level function \<open>Error\<close> is declared there as well: a call
  of it is recorded as the effect \<open>PkgError\<close> with the arguments it receives.
\<close>

record styling =
  formatText :: "string \<Rightarrow> string \<Rightarrow> string"
  formatTextExt :: "string \<Rightarrow> string \<Rightarrow> string \<Rightarrow> string"
  bold :: string
  dim :: string
  italic :: string
  underline :: string
  brightGreen :: string
  brightBlue :: string
  brightYellow :: string
  orange :: string
  magenta :: string

text \<open>The UTF-8 bytes of the arrow that starts the detail line.\<close>

definition arrow :: string where
  "arrow = [CHR 0xE2, CHR 0x86, CHR 0xB3]"

section \<open>The package\<close>

definition New :: "Config option \<Rightarrow> Logger" where
  "New c = \<lparr>cache = Some Map.empty, cfg = c\<rparr>"

definition addCache :: "Logger \<Rightarrow> gtime \<Rightarrow> string \<Rightarrow> panic + Logger" where
  "addCache l t content =
     (case cache l of
        None \<Rightarrow> Inl NilMapAssignment
      | Some m \<Rightarrow> Inr (l\<lparr>cache := Some (m(t \<mapsto> content))\<rparr>))"

text \<open>The function name and the line of the calling frame, as every method reads them.\<close>

definition fName :: "env \<Rightarrow> string" where
  "fName e = (case caller e of (pc, file, line, ok) \<Rightarrow> Name (funcForPC e pc))"

definition callerLine :: "env \<Rightarrow> int" where
  "callerLine e = (case caller e of (pc, file, line, ok) \<Rightarrow> line)"

definition contentRaw :: "env \<Rightarrow> string" where
  "contentRaw e =
     ''['' @ '' ERROR'' @ ''] '' @ currentDate e @ '' '' @ currentTime e
     @ '' ('' @ fName e @ '':'' @ Itoa (callerLine e) @ '')''"

definition Error :: "styling \<Rightarrow> env \<Rightarrow> Logger \<Rightarrow> gval list \<Rightarrow> panic + Logger \<times> effect list" where
  "Error S e l args =
     (let msg = Sprint args in
      case addCache l (now e) (contentRaw e) of
        Inl p \<Rightarrow> Inl p
      | Inr l' \<Rightarrow> Inr (l', [PkgError [VString msg]]))"

definition Info :: "styling \<Rightarrow> env \<Rightarrow> Logger \<Rightarrow> gval list \<Rightarrow> panic + Logger \<times> effect list" where
  "Info S e l args =
     (let msg = Sprint args;
          content = ''['' @ formatTextExt S (bold S) (brightGreen S) '' INFO '' @ ''] ''
            @ formatTextExt S (dim S) (italic S) (currentDate e) @ '' ''
            @ formatText S (underline S) (currentTime e) @ '' ''
            @ formatText S (bold S) msg
      in Inr (l, Println [VString content]))"

definition InfoC :: "styling \<Rightarrow> env \<Rightarrow> Logger \<Rightarrow> gval list \<Rightarrow> panic + Logger \<times> effect list" where
  "InfoC S e l args =
     (let msg = Sprint args;
          content = ''['' @ formatTextExt S (bold S) (brightGreen S) '' INFO '' @ ''] ''
            @ formatTextExt S (dim S) (italic S) (currentDate e) @ '' ''
            @ formatText S (underline S) (currentTime e) @ '' (''
            @ formatText S (brightBlue S) (fName e) @ '':''
            @ formatText S (bold S) (Itoa (callerLine e)) @ '')''
      in Inr (l, Println [VString content]
            @ (if length args > 0
               then Println [VString arrow, VString (formatTextExt S (bold S) (brightYellow S) msg)]
               else [])))"

definition Warn :: "styling \<Rightarrow> env \<Rightarrow> Logger \<Rightarrow> gval list \<Rightarrow> panic + Logger \<times> effect list" where
  "Warn S e l args =
     (let msg = Sprint args;
          content = ''['' @ formatTextExt S (bold S) (orange S) '' WARN '' @ ''] ''
            @ formatTextExt S (dim S) (italic S) (currentDate e) @ '' ''
            @ formatText S (underline S) (currentTime e) @ '' ''
            @ formatText S (bold S) msg
      in Inr (l, Println [VString content]))"

definition WarnC :: "styling \<Rightarrow> env \<Rightarrow> Logger \<Rightarrow> gval list \<Rightarrow> panic + Logger \<times> effect list" where
  "WarnC S e l args =
     (let msg = Sprint args;
          content = ''['' @ formatTextExt S (bold S) (orange S) '' WARN '' @ ''] ''
            @ formatTextExt S (dim S) (italic S) (currentDate e) @ '' ''
            @ formatText S (underline S) (currentTime e) @ '' (''
            @ formatText S (brightBlue S) (fName e) @ '':''
            @ formatText S (bold S) (Itoa (callerLine e)) @ '')''
      in Inr (l, Println [VString content]
            @ (if length args > 0
               then Println [VString arrow, VString (formatTextExt S (bold S) (brightYellow S) msg)]
               else [])))"

definition Debug :: "styling \<Rightarrow> env \<Rightarrow> Logger \<Rightarrow> gval list \<Rightarrow> panic + Logger \<times> effect list" where
  "Debug S e l args =
     (let msg = Sprint args;
          content = ''['' @ formatTextExt S (bold S) (magenta S) '' DBUG '' @ ''] ''
            @ formatTextExt S (dim S) (italic S) (currentDate e) @ '' ''
            @ formatText S (underline S) (currentTime e) @ '' (''
            @ formatText S (brightBlue S) (fName e) @ '':''
            @ formatText S (bold S) (Itoa (callerLine e)) @ '')''
      in Inr (l, Println [VString content]
            @ (if length args > 0
               then Println [VString arrow, VString (formatTextExt S (bold S) (brightYellow S) msg)]
               else [])))"

section \<open>Sequences of calls\<close>

text \<open>
  The six public methods, and a program as a list of calls, each with the environment it
  reads and its argument list. A panic ends the program.
\<close>

datatype entrypoint = MError | MInfo | MInfoC | MWarn | MWarnC | MDebug

fun call :: "styling \<Rightarrow> entrypoint \<Rightarrow> env \<Rightarrow> Logger \<Rightarrow> gval list \<Rightarrow> panic + Logger \<times> effect list" where
  "call S MError e l args = Error S e l args"
| "call S MInfo e l args = Info S e l args"
| "call S MInfoC e l args = InfoC S e l args"
| "call S MWarn e l args = Warn S e l args"
| "call S MWarnC e l args = WarnC S e l args"
| "call S MDebug e l args = Debug S e l args"

fun run :: "styling \<Rightarrow> (entrypoint \<times> env \<times> gval list) list \<Rightarrow> Logger \<Rightarrow> panic + Logger \<times> effect list" where
  "run S [] l = Inr (l, [])"
| "run S ((m, e, args) # rest) l =
     (case call S m e l args of
        Inl p \<Rightarrow> Inl p
      | Inr (l', out) \<Rightarrow>
          (case run S rest l' of
             Inl p \<Rightarrow> Inl p
           | Inr (l'', out') \<Rightarrow> Inr (l'', out @ out')))"

fun addCaches :: "(gtime \<times> string) list \<Rightarrow> Logger \<Rightarrow> panic + Logger" where
  "addCaches [] l = Inr l"
| "addCaches ((t, content) # rest) l =
     (case addCache l t content of
        Inl p \<Rightarrow> Inl p
      | Inr l' \<Rightarrow> addCaches rest l')"

text \<open>What can be observed of a result: the panic, or the cache and the effects.\<close>

definition observe :: "panic + Logger \<times> effect list \<Rightarrow> panic + (gtime \<rightharpoonup> string) option \<times> effect list" where
  "observe r = (case r of Inl p \<Rightarrow> Inl p | Inr (l, out) \<Rightarrow> Inr (cache l, out))"

section \<open>Concrete inputs\<close>

text \<open>
  A styling that wraps the text in escape sequences, two instants, and an environment
  with a resolved and one with an unresolved calling frame.
\<close>

definition S0 :: styling where
  "S0 = \<lparr>formatText = (\<lambda>s t. s @ t @ ''!''),
         formatTextExt = (\<lambda>s1 s2 t. s1 @ s2 @ t @ ''!''),
         bold = ''<b>'', dim = ''<d>'', italic = ''<i>'', underline = ''<u>'',
         brightGreen = ''<g>'', brightBlue = ''<bl>'', brightYellow = ''<y>'',
         orange = ''<o>'', magenta = ''<m>''\<rparr>"

definition t1 :: gtime where
  "t1 = \<lparr>wall = 1, ext = 0, loc = None\<rparr>"

definition t2 :: gtime where
  "t2 = \<lparr>wall = 2, ext = 0, loc = None\<rparr>"

definition e1 :: env where
  "e1 = \<lparr>caller = (7, ''main.go'', 42, True),
         funcForPC = [7 \<mapsto> ''main.main''],
         currentDate = ''2025-01-02'', currentTime = ''03:04:05'', now = t1\<rparr>"

definition e0 :: env where
  "e0 = \<lparr>caller = (0, [], 0, False),
         funcForPC = Map.empty,
         currentDate = ''2025-01-02'', currentTime = ''03:04:05'', now = t2\<rparr>"

section \<open>Library facts\<close>

lemma digits_not_Nil: "digits n \<noteq> []"
  by (subst digits.simps) simp

lemma Itoa_not_Nil: "Itoa i \<noteq> []"
  by (simp add: Itoa_def digits_not_Nil)

lemma Itoa_0: "Itoa 0 = ''0''"
  by (simp add: Itoa_def digits.simps)

lemma Itoa_42: "Itoa 42 = ''42''"
  by (simp add: Itoa_def digits.simps)

section \<open>Construction\<close>

text \<open>
  C10. For every config value, nil included, \<open>New\<close> returns a logger whose cache is an
  initialised map with no entry, and whose config is the one given; the first \<open>Error\<close>
  call on it does not panic and leaves exactly the one entry it wrote.
\<close>

theorem New_cache_empty:
  "cache (New c) = Some Map.empty \<and> cfg (New c) = c
   \<and> dom (the (cache (New c))) = {}
   \<and> observe (Error S e (New c) args)
       = Inr (Some [now e \<mapsto> contentRaw e], [PkgError [VString (Sprint args)]])"
  by (simp add: New_def Error_def addCache_def observe_def)

section \<open>The Error path\<close>

text \<open>
  C1. On a logger whose cache is initialised (every logger built by \<open>New\<close>), a call of
  \<open>Error\<close> with any argument list writes exactly one cache entry, under the key
  \<open>time.Now()\<close>: every other key keeps what it had, and a fresh key is the only new one.
  The content is the plain text \<open>[ ERROR] date time (funcName:line)\<close>, which contains
  the tag \<open> ERROR\<close>, and the package-level \<open>Error\<close> is called with the message
  \<open>Sprint args\<close> as its only argument.
\<close>

theorem Error_caches_one_entry:
  assumes "cache l = Some m"
  shows "Error S e l args
           = Inr (l\<lparr>cache := Some (m(now e \<mapsto> contentRaw e))\<rparr>, [PkgError [VString (Sprint args)]])
       \<and> contentRaw e = ''[ ERROR] '' @ currentDate e @ '' '' @ currentTime e
           @ '' ('' @ fName e @ '':'' @ Itoa (callerLine e) @ '')''
       \<and> sublist '' ERROR'' (contentRaw e)
       \<and> (\<forall>k. k \<noteq> now e \<longrightarrow> (m(now e \<mapsto> contentRaw e)) k = m k)
       \<and> (now e \<notin> dom m \<longrightarrow> dom (m(now e \<mapsto> contentRaw e)) - dom m = {now e})"
  using assms
  by (auto simp add: Error_def addCache_def contentRaw_def sublist_Cons_right)

theorem Error_caches_one_entry_witness:
  "cache (New None) = Some Map.empty
   \<and> Error S0 e1 (New None) [VString ''disk full'']
       = Inr (\<lparr>cache = Some [t1 \<mapsto> ''[ ERROR] 2025-01-02 03:04:05 (main.main:42)''], cfg = None\<rparr>,
              [PkgError [VString ''disk full'']])
   \<and> t1 \<notin> dom (Map.empty :: gtime \<rightharpoonup> string)"
  using Error_caches_one_entry [of "New None" Map.empty S0 e1 "[VString ''disk full'']"]
  by (simp add: New_def e1_def fName_def callerLine_def Itoa_42 Sprint_def)

section \<open>The cache\<close>

lemma addCaches_cache:
  "cache l = Some m \<Longrightarrow> addCaches ops l = Inr (l\<lparr>cache := Some (m ++ map_of (rev ops))\<rparr>)"
proof (induction ops arbitrary: l m)
  case Nil
  then show ?case by simp
next
  case (Cons x ops)
  obtain t c where x: "x = (t, c)" by (cases x)
  let ?l = "l\<lparr>cache := Some (m(t \<mapsto> c))\<rparr>"
  have step: "addCaches (x # ops) l = addCaches ops ?l"
    using Cons.prems x by (simp add: addCache_def)
  have "cache ?l = Some (m(t \<mapsto> c))" by simp
  then have ih: "addCaches ops ?l = Inr (?l\<lparr>cache := Some (m(t \<mapsto> c) ++ map_of (rev ops))\<rparr>)"
    by (rule Cons.IH)
  have maps: "m(t \<mapsto> c) ++ map_of (rev ops) = m ++ map_of (rev (x # ops))"
    by (simp add: x map_add_assoc [symmetric])
  show ?case
    unfolding step ih maps by simp
qed

lemma map_of_rev_unwritten: "k \<notin> fst ` set ops \<Longrightarrow> map_of (rev ops) k = None"
  by (simp add: map_of_eq_None_iff)

lemma map_of_rev_last:
  "t \<notin> fst ` set ops2 \<Longrightarrow> map_of (rev (ops1 @ (t, v) # ops2)) t = Some v"
  by (simp add: map_add_def map_of_rev_unwritten)

lemma map_of_rev_distinct:
  "distinct (map fst ops) \<Longrightarrow> (t, v) \<in> set ops \<Longrightarrow> map_of (rev ops) t = Some v"
  by (rule map_of_is_SomeI) (simp_all add: rev_map [symmetric])

text \<open>
  C2. After any sequence of \<open>addCache\<close> calls on an initialised cache, every key holds
  the content of the last write under it (a write is the last one under its key when no
  later write has the same key), keys that were not written are untouched, and the keys
  are those present before together with the written ones. Writes under distinct keys
  are all present afterwards; starting from the empty cache there are as many entries as
  distinct keys written.
\<close>

theorem addCaches_last_writer_wins:
  assumes "cache l = Some m"
  shows "\<exists>m'. addCaches ops l = Inr (l\<lparr>cache := Some m'\<rparr>)
     \<and> (\<forall>ops1 t v ops2. ops = ops1 @ (t, v) # ops2 \<and> t \<notin> fst ` set ops2 \<longrightarrow> m' t = Some v)
     \<and> (\<forall>k. k \<notin> fst ` set ops \<longrightarrow> m' k = m k)
     \<and> dom m' = dom m \<union> fst ` set ops
     \<and> (distinct (map fst ops) \<longrightarrow> (\<forall>(t, v) \<in> set ops. m' t = Some v))
     \<and> (m = Map.empty \<longrightarrow> card (dom m') = card (fst ` set ops))
     \<and> (m = Map.empty \<and> distinct (map fst ops) \<longrightarrow> card (dom m') = length ops)"
proof -
  let ?m' = "m ++ map_of (rev ops)"
  have 1: "addCaches ops l = Inr (l\<lparr>cache := Some ?m'\<rparr>)"
    using assms by (rule addCaches_cache)
  have 2: "\<forall>ops1 t v ops2. ops = ops1 @ (t, v) # ops2 \<and> t \<notin> fst ` set ops2 \<longrightarrow> ?m' t = Some v"
    using map_of_rev_last by (fastforce simp add: map_add_Some_iff)
  have 3: "\<forall>k. k \<notin> fst ` set ops \<longrightarrow> ?m' k = m k"
    by (simp add: map_add_def map_of_rev_unwritten)
  have 4: "dom ?m' = dom m \<union> fst ` set ops"
    by (auto simp add: dom_map_of_conv_image_fst)
  have 5: "distinct (map fst ops) \<longrightarrow> (\<forall>(t, v) \<in> set ops. ?m' t = Some v)"
    by (auto simp add: map_add_Some_iff map_of_rev_distinct)
  have 6: "m = Map.empty \<longrightarrow> card (dom ?m') = card (fst ` set ops)"
    by (simp add: dom_map_of_conv_image_fst)
  have 7: "m = Map.empty \<and> distinct (map fst ops) \<longrightarrow> card (dom ?m') = length ops"
    using distinct_card [of "map fst ops"] by (simp add: dom_map_of_conv_image_fst)
  from 1 2 3 4 5 6 7 show ?thesis by blast
qed

lemma t1_neq_t2: "t1 \<noteq> t2"
  by (simp add: t1_def t2_def)

theorem addCaches_last_writer_wins_witness:
  "cache (New None) = Some Map.empty
   \<and> distinct (map fst [(t1, ''a''), (t2, ''b'')])
   \<and> (\<exists>m'. addCaches [(t1, ''a''), (t2, ''b'')] (New None) = Inr ((New None)\<lparr>cache := Some m'\<rparr>)
         \<and> m' t1 = Some ''a'' \<and> m' t2 = Some ''b'' \<and> card (dom m') = 2)
   \<and> (\<exists>m'. addCaches [(t1, ''a''), (t1, ''b'')] (New None) = Inr ((New None)\<lparr>cache := Some m'\<rparr>)
         \<and> m' t1 = Some ''b'' \<and> dom m' = {t1})"
proof -
  have c: "cache (New None) = Some Map.empty" by (simp add: New_def)
  have d: "distinct (map fst [(t1, ''a''), (t2, ''b'')])" by (simp add: t1_neq_t2)
  from addCaches_last_writer_wins [OF c, of "[(t1, ''a''), (t2, ''b'')]"]
  obtain m1 where
    a1: "addCaches [(t1, ''a''), (t2, ''b'')] (New None) = Inr ((New None)\<lparr>cache := Some m1\<rparr>)"
    and a2: "distinct (map fst [(t1, ''a''), (t2, ''b'')]) \<longrightarrow> (\<forall>(t, v) \<in> set [(t1, ''a''), (t2, ''b'')]. m1 t = Some v)"
    and a3: "Map.empty = (Map.empty :: gtime \<rightharpoonup> string) \<and> distinct (map fst [(t1, ''a''), (t2, ''b'')])
               \<longrightarrow> card (dom m1) = length [(t1, ''a''), (t2, ''b'')]"
    by (elim exE conjE)
  from a2 d have a4: "m1 t1 = Some ''a'' \<and> m1 t2 = Some ''b''" by simp
  from a3 d have a5: "card (dom m1) = 2" by simp
  from a1 a4 a5 have A: "\<exists>m'. addCaches [(t1, ''a''), (t2, ''b'')] (New None) = Inr ((New None)\<lparr>cache := Some m'\<rparr>)
         \<and> m' t1 = Some ''a'' \<and> m' t2 = Some ''b'' \<and> card (dom m') = 2"
    by (intro exI [of _ m1]) simp
  from addCaches_last_writer_wins [OF c, of "[(t1, ''a''), (t1, ''b'')]"]
  obtain m2 where
    b1: "addCaches [(t1, ''a''), (t1, ''b'')] (New None) = Inr ((New None)\<lparr>cache := Some m2\<rparr>)"
    and b2: "\<forall>ops1 t v ops2. [(t1, ''a''), (t1, ''b'')] = ops1 @ (t, v) # ops2 \<and> t \<notin> fst ` set ops2 \<longrightarrow> m2 t = Some v"
    and b3: "dom m2 = dom (Map.empty :: gtime \<rightharpoonup> string) \<union> fst ` set [(t1, ''a''), (t1, ''b'')]"
    by (elim exE conjE)
  from b2 have "[(t1, ''a''), (t1, ''b'')] = [(t1, ''a'')] @ (t1, ''b'') # [] \<and> t1 \<notin> fst ` set ([] :: (gtime \<times> string) list)
      \<longrightarrow> m2 t1 = Some ''b''"
    by (elim allE)
  then have b4: "m2 t1 = Some ''b''" by simp
  from b3 have b5: "dom m2 = {t1}" by simp
  from b1 b4 b5 have B: "\<exists>m'. addCaches [(t1, ''a''), (t1, ''b'')] (New None) = Inr ((New None)\<lparr>cache := Some m'\<rparr>)
         \<and> m' t1 = Some ''b'' \<and> dom m' = {t1}"
    by (intro exI [of _ m2]) simp
  from c d A B show ?thesis by (intro conjI)
qed

section \<open>Sequences of public calls and the cache\<close>

lemma call_not_Error: "m \<noteq> MError \<Longrightarrow> \<exists>out. call S m e l args = Inr (l, out)"
  by (cases m) (simp_all add: Info_def InfoC_def Warn_def WarnC_def Debug_def Let_def)

lemma call_Error: "cache l = Some c0 \<Longrightarrow>
  \<exists>out. call S MError e l args = Inr (l\<lparr>cache := Some (c0(now e \<mapsto> contentRaw e))\<rparr>, out)"
  by (simp add: Error_def addCache_def)

lemma call_cache:
  assumes "cache l = Some c0"
  shows "\<exists>c' out. call S m e l args = Inr (l\<lparr>cache := Some c'\<rparr>, out)
     \<and> dom c' = dom c0 \<union> (if m = MError then {now e} else {})
     \<and> (\<forall>k. (m = MError \<longrightarrow> k \<noteq> now e) \<longrightarrow> c' k = c0 k)"
proof (cases "m = MError")
  case True
  with call_Error [OF assms, of S e args] show ?thesis by auto
next
  case False
  from call_not_Error [OF this, of S e l args] obtain out where "call S m e l args = Inr (l, out)" ..
  moreover have "l = l\<lparr>cache := Some c0\<rparr>" using assms by simp
  ultimately have "call S m e l args = Inr (l\<lparr>cache := Some c0\<rparr>, out)" by simp
  with False show ?thesis by auto
qed

lemma run_cache:
  "cache l = Some c0 \<Longrightarrow>
   \<exists>c' out. run S calls l = Inr (l\<lparr>cache := Some c'\<rparr>, out)
     \<and> dom c' = dom c0 \<union> {now e | e args. (MError, e, args) \<in> set calls}
     \<and> (\<forall>k. k \<notin> {now e | e args. (MError, e, args) \<in> set calls} \<longrightarrow> c' k = c0 k)"
proof (induction calls arbitrary: l c0)
  case Nil
  then have "l = l\<lparr>cache := Some c0\<rparr>" by simp
  then have "run S [] l = Inr (l\<lparr>cache := Some c0\<rparr>, [])" by simp
  then show ?case by auto
next
  case (Cons x calls)
  obtain m e args where x: "x = (m, e, args)" by (cases x)
  from call_cache [OF Cons.prems, of S m e args] obtain c1 out1 where
    1: "call S m e l args = Inr (l\<lparr>cache := Some c1\<rparr>, out1)"
    and d1: "dom c1 = dom c0 \<union> (if m = MError then {now e} else {})"
    and k1: "\<forall>k. (m = MError \<longrightarrow> k \<noteq> now e) \<longrightarrow> c1 k = c0 k" by blast
  have "cache (l\<lparr>cache := Some c1\<rparr>) = Some c1" by simp
  from Cons.IH [OF this] obtain c2 out2 where
    2: "run S calls (l\<lparr>cache := Some c1\<rparr>) = Inr (l\<lparr>cache := Some c1\<rparr>\<lparr>cache := Some c2\<rparr>, out2)"
    and d2: "dom c2 = dom c1 \<union> {now e | e args. (MError, e, args) \<in> set calls}"
    and k2: "\<forall>k. k \<notin> {now e | e args. (MError, e, args) \<in> set calls} \<longrightarrow> c2 k = c1 k" by blast
  have r: "run S (x # calls) l = Inr (l\<lparr>cache := Some c2\<rparr>, out1 @ out2)"
    using 1 2 x by simp
  have d: "dom c2 = dom c0 \<union> {now e | e args. (MError, e, args) \<in> set (x # calls)}"
    unfolding d2 d1 x by auto
  have k: "\<forall>k. k \<notin> {now e | e args. (MError, e, args) \<in> set (x # calls)} \<longrightarrow> c2 k = c0 k"
  proof (intro allI impI)
    fix k assume nk: "k \<notin> {now e | e args. (MError, e, args) \<in> set (x # calls)}"
    then have "k \<notin> {now e | e args. (MError, e, args) \<in> set calls}" by auto
    with k2 have a: "c2 k = c1 k" by simp
    from nk x have "m = MError \<longrightarrow> k \<noteq> now e" by auto
    with k1 have "c1 k = c0 k" by simp
    with a show "c2 k = c0 k" by simp
  qed
  from r d k show ?case by blast
qed

text \<open>
  C6. Starting from an initialised cache, every sequence of public calls runs to its end,
  the keys afterwards are the keys before together with the instants of the \<open>Error\<close>
  calls, every entry under another key is unchanged, and a call of \<open>Info\<close>, \<open>InfoC\<close>,
  \<open>Warn\<close>, \<open>WarnC\<close> or \<open>Debug\<close> returns the logger as it was.
\<close>

theorem cache_only_grows:
  assumes "cache l = Some c0"
  shows "\<exists>c' out. run S calls l = Inr (l\<lparr>cache := Some c'\<rparr>, out)
     \<and> dom c0 \<subseteq> dom c'
     \<and> dom c' = dom c0 \<union> {now e | e args. (MError, e, args) \<in> set calls}
     \<and> (\<forall>k. k \<notin> {now e | e args. (MError, e, args) \<in> set calls} \<longrightarrow> c' k = c0 k)
     \<and> ((\<forall>x \<in> set calls. fst x \<noteq> MError) \<longrightarrow> c' = c0)
     \<and> (\<forall>m e args. m \<noteq> MError \<longrightarrow> (\<exists>out. call S m e l args = Inr (l, out)))"
proof -
  from run_cache [OF assms, of S calls] obtain c' out where
    r: "run S calls l = Inr (l\<lparr>cache := Some c'\<rparr>, out)"
    and d: "dom c' = dom c0 \<union> {now e | e args. (MError, e, args) \<in> set calls}"
    and k: "\<forall>k. k \<notin> {now e | e args. (MError, e, args) \<in> set calls} \<longrightarrow> c' k = c0 k" by blast
  from d have s: "dom c0 \<subseteq> dom c'" by simp
  have n: "(\<forall>x \<in> set calls. fst x \<noteq> MError) \<longrightarrow> c' = c0"
  proof
    assume "\<forall>x \<in> set calls. fst x \<noteq> MError"
    then have "{now e | e args. (MError, e, args) \<in> set calls} = {}" by force
    with k have "\<forall>k. c' k = c0 k" by simp
    then show "c' = c0" by (simp add: fun_eq_iff)
  qed
  have c: "\<forall>m e args. m \<noteq> MError \<longrightarrow> (\<exists>out. call S m e l args = Inr (l, out))"
    by (simp add: call_not_Error)
  from r s d k n c show ?thesis by blast
qed

theorem cache_only_grows_witness:
  "cache (New None) = Some Map.empty
   \<and> observe (run S0 [(MInfo, e1, [VString ''a'']), (MError, e1, [VString ''b'']), (MDebug, e0, [])] (New None))
      = Inr (Some [t1 \<mapsto> ''[ ERROR] 2025-01-02 03:04:05 (main.main:42)''],
          [Stdout (''[<b><g> INFO !] <d><i>2025-01-02! <u>03:04:05! <b>a!'' @ [CHR 0x0A]),
           PkgError [VString ''b''],
           Stdout (''[<b><m> DBUG !] <d><i>2025-01-02! <u>03:04:05! (<bl>!:<b>0!)'' @ [CHR 0x0A])])
   \<and> list_all (\<lambda>x. fst x \<noteq> MError) [(MInfo, e1, [VString ''a'']), (MWarnC, e0, [])]
   \<and> observe (run S0 [(MInfo, e1, [VString ''a'']), (MWarnC, e0, [])] (New None))
      = Inr (Some Map.empty,
          [Stdout (''[<b><g> INFO !] <d><i>2025-01-02! <u>03:04:05! <b>a!'' @ [CHR 0x0A]),
           Stdout (''[<b><o> WARN !] <d><i>2025-01-02! <u>03:04:05! (<bl>!:<b>0!)'' @ [CHR 0x0A])])
   \<and> MInfo \<noteq> MError"
  using cache_only_grows [of "New None" Map.empty S0
      "[(MInfo, e1, [VString ''a'']), (MError, e1, [VString ''b'']), (MDebug, e0, [])]"]
    cache_only_grows [of "New None" Map.empty S0 "[(MInfo, e1, [VString ''a'']), (MWarnC, e0, [])]"]
  by (simp add: New_def observe_def Info_def Error_def Debug_def WarnC_def addCache_def contentRaw_def
      fName_def callerLine_def Sprint_def Println_def S0_def e1_def e0_def Itoa_42 Itoa_0)

section \<open>The debug-mode flag\<close>

lemma call_cfg:
  "call S m e (l\<lparr>cfg := c\<rparr>) args
     = (case call S m e l args of Inl p \<Rightarrow> Inl p | Inr (l', out) \<Rightarrow> Inr (l'\<lparr>cfg := c\<rparr>, out))"
  by (cases m)
     (simp_all add: Error_def addCache_def Info_def InfoC_def Warn_def WarnC_def Debug_def Let_def
        split: option.splits)

lemma run_cfg:
  "run S calls (l\<lparr>cfg := c\<rparr>)
     = (case run S calls l of Inl p \<Rightarrow> Inl p | Inr (l', out) \<Rightarrow> Inr (l'\<lparr>cfg := c\<rparr>, out))"
proof (induction calls arbitrary: l)
  case Nil
  show ?case by simp
next
  case (Cons x calls)
  obtain m e args where x: "x = (m, e, args)" by (cases x)
  show ?case
    unfolding x by (simp add: call_cfg Cons.IH split: sum.splits prod.splits)
qed

lemma observe_cfg:
  "observe (case r of Inl p \<Rightarrow> Inl p | Inr (l', out) \<Rightarrow> Inr (l'\<lparr>cfg := c\<rparr>, out)) = observe r"
  by (simp add: observe_def split: sum.splits prod.splits)

text \<open>
  C7. What a call or a sequence of calls prints, what it passes to the package-level
  \<open>Error\<close> and what it leaves in the cache are the same whether \<open>IsDebugMode\<close> is true
  or false.
\<close>

theorem debug_flag_inert:
  "observe (call S m e (l\<lparr>cfg := Some \<lparr>IsDebugMode = True\<rparr>\<rparr>) args)
     = observe (call S m e (l\<lparr>cfg := Some \<lparr>IsDebugMode = False\<rparr>\<rparr>) args)
   \<and> observe (run S calls (New (Some \<lparr>IsDebugMode = True\<rparr>)))
     = observe (run S calls (New (Some \<lparr>IsDebugMode = False\<rparr>)))"
proof -
  have n: "\<And>c. New c = (New None)\<lparr>cfg := c\<rparr>" by (simp add: New_def)
  have a: "\<And>c. observe (call S m e (l\<lparr>cfg := c\<rparr>) args) = observe (call S m e l args)"
    by (simp only: call_cfg observe_cfg)
  have b: "\<And>c. observe (run S calls (New c)) = observe (run S calls (New None))"
    by (subst n) (simp only: run_cfg observe_cfg)
  show ?thesis
    by (simp only: a b [of "Some \<lparr>IsDebugMode = True\<rparr>"] b [of "Some \<lparr>IsDebugMode = False\<rparr>"])
qed

section \<open>The cached content and the message\<close>

text \<open>
  C9. The cache that \<open>Error\<close> leaves is the same for any two argument lists; the content
  it writes is \<open>contentRaw\<close> of the environment, and two environments with the same
  caller, function table, date and time give the same content.
\<close>

theorem Error_content_independent_of_message:
  "map_sum id (cache \<circ> fst) (Error S e l args) = map_sum id (cache \<circ> fst) (Error S e l args')
   \<and> (cache l = Some m \<longrightarrow>
        map_sum id (cache \<circ> fst) (Error S e l args) = Inr (Some (m(now e \<mapsto> contentRaw e))))
   \<and> (caller e' = caller e \<and> funcForPC e' = funcForPC e \<and> currentDate e' = currentDate e
        \<and> currentTime e' = currentTime e \<longrightarrow> contentRaw e' = contentRaw e)"
  by (simp add: Error_def addCache_def contentRaw_def fName_def callerLine_def split: option.splits)

theorem Error_content_independent_of_message_witness:
  "cache (New None) = Some Map.empty
   \<and> map_sum id (cache \<circ> fst) (Error S0 e1 (New None) [VString ''disk full''])
       = Inr (Some [t1 \<mapsto> ''[ ERROR] 2025-01-02 03:04:05 (main.main:42)''])
   \<and> map_sum id (cache \<circ> fst) (Error S0 e1 (New None) [VString ''secret'', VInt 7])
       = Inr (Some [t1 \<mapsto> ''[ ERROR] 2025-01-02 03:04:05 (main.main:42)''])
   \<and> contentRaw (e1\<lparr>now := t2\<rparr>) = contentRaw e1"
  using Error_content_independent_of_message
      [of S0 e1 "New None" "[VString ''disk full'']" "[VString ''secret'', VInt 7]" Map.empty "e1\<lparr>now := t2\<rparr>"]
  by (simp add: New_def Error_def addCache_def contentRaw_def fName_def callerLine_def e1_def Itoa_42)

section \<open>The context variants\<close>

text \<open>
  C4. \<open>InfoC\<close> and \<open>WarnC\<close> always print the header line; the detail line, the arrow
  followed by the styled message, is printed exactly when the argument list is not empty.
\<close>

theorem context_variants_lines:
  "InfoC S e l args
     = Inr (l, Stdout (''['' @ formatTextExt S (bold S) (brightGreen S) '' INFO '' @ ''] ''
                 @ formatTextExt S (dim S) (italic S) (currentDate e) @ '' ''
                 @ formatText S (underline S) (currentTime e) @ '' (''
                 @ formatText S (brightBlue S) (fName e) @ '':''
                 @ formatText S (bold S) (Itoa (callerLine e)) @ '')'' @ [CHR 0x0A])
            # (if args = [] then []
               else [Stdout (arrow @ '' '' @ formatTextExt S (bold S) (brightYellow S) (Sprint args)
                       @ [CHR 0x0A])]))
   \<and> WarnC S e l args
     = Inr (l, Stdout (''['' @ formatTextExt S (bold S) (orange S) '' WARN '' @ ''] ''
                 @ formatTextExt S (dim S) (italic S) (currentDate e) @ '' ''
                 @ formatText S (underline S) (currentTime e) @ '' (''
                 @ formatText S (brightBlue S) (fName e) @ '':''
                 @ formatText S (bold S) (Itoa (callerLine e)) @ '')'' @ [CHR 0x0A])
            # (if args = [] then []
               else [Stdout (arrow @ '' '' @ formatTextExt S (bold S) (brightYellow S) (Sprint args)
                       @ [CHR 0x0A])]))"
  by (simp add: InfoC_def WarnC_def Println_def Let_def)

theorem context_variants_lines_witness:
  "InfoC S0 e1 (New None) []
     = Inr (New None, [Stdout (''[<b><g> INFO !] <d><i>2025-01-02! <u>03:04:05! (<bl>main.main!:<b>42!)'' @ [CHR 0x0A])])
   \<and> WarnC S0 e1 (New None) [VString ''low disk'']
     = Inr (New None, [Stdout (''[<b><o> WARN !] <d><i>2025-01-02! <u>03:04:05! (<bl>main.main!:<b>42!)'' @ [CHR 0x0A]),
                       Stdout (arrow @ '' <b><y>low disk!'' @ [CHR 0x0A])])"
  using context_variants_lines [of S0 e1 "New None" "[]"]
        context_variants_lines [of S0 e1 "New None" "[VString ''low disk'']"]
  by (simp add: S0_def e1_def fName_def callerLine_def Itoa_42 Sprint_def)

section \<open>The message body\<close>

lemma doPrint_Suc: "doPrint (Suc n) p xs = doPrint (Suc k) p xs"
  by (induction xs arbitrary: n k p) auto

lemma Sprint_Nil: "Sprint [] = []"
  by (simp add: Sprint_def)

lemma Sprint_single: "Sprint [a] = printArg a"
  by (simp add: Sprint_def)

lemma Sprint_Cons2:
  "Sprint (a # b # rest)
     = printArg a @ (if isString a \<or> isString b then [] else '' '') @ Sprint (b # rest)"
  using doPrint_Suc [of "Suc 0" "isString b" rest 0]
  by (simp add: Sprint_def)

lemma doPrint_strings:
  "\<forall>a \<in> set args. isString a \<Longrightarrow> doPrint n p args = concat (map printArg args)"
  by (induction args arbitrary: n p) auto

lemma Sprint_strings: "Sprint (map VString ss) = concat ss"
  by (simp add: Sprint_def doPrint_strings comp_def)

lemma sublist_mid:
  assumes "sublist t x"
  shows "sublist t (pre @ x @ post)"
proof -
  from assms obtain ps ss where "x = ps @ t @ ss"
    by (auto simp add: sublist_def)
  then have "pre @ x @ post = (pre @ ps) @ t @ (ss @ post)" by simp
  then show ?thesis unfolding sublist_def by (intro exI)
qed

text \<open>
  C8. The message body of every method is \<open>Sprint\<close> of its arguments: the operands in
  their default format, one after the other, with a space only between two neighbours
  neither of which is a string; string operands are simply concatenated, so
  \<open>Info("build", " ", "ok")\<close> has the body \<open>build ok\<close>. \<open>Info\<close> and \<open>Warn\<close> print the
  styled body at the end of their line, the context variants and \<open>Debug\<close> print it in
  the detail line, and \<open>Error\<close> passes it to the package-level \<open>Error\<close>. When the
  styling helpers only add markers around the text they are given, the line printed by
  \<open>Info("build", " ", "ok")\<close> contains \<open> INFO \<close> and \<open>build ok\<close>.
\<close>

theorem message_body_is_Sprint:
  "Sprint [] = []
   \<and> Sprint [a] = printArg a
   \<and> Sprint (a # b # rest)
       = printArg a @ (if isString a \<or> isString b then [] else '' '') @ Sprint (b # rest)
   \<and> Sprint (map VString ss) = concat ss
   \<and> Sprint [VString ''build'', VString '' '', VString ''ok''] = ''build ok''
   \<and> (\<exists>pre. Info S e l args = Inr (l, [Stdout (pre @ formatText S (bold S) (Sprint args) @ [CHR 0x0A])]))
   \<and> (\<exists>pre. Warn S e l args = Inr (l, [Stdout (pre @ formatText S (bold S) (Sprint args) @ [CHR 0x0A])]))
   \<and> (args \<noteq> [] \<longrightarrow> (\<forall>m \<in> {MInfoC, MWarnC, MDebug}. \<exists>header.
         call S m e l args = Inr (l, [Stdout header,
           Stdout (arrow @ '' '' @ formatTextExt S (bold S) (brightYellow S) (Sprint args) @ [CHR 0x0A])])))
   \<and> (cache l \<noteq> None \<longrightarrow> (\<exists>l'. Error S e l args = Inr (l', [PkgError [VString (Sprint args)]])))
   \<and> ((\<forall>s t. sublist t (formatText S s t)) \<and> (\<forall>s1 s2 t. sublist t (formatTextExt S s1 s2 t)) \<longrightarrow>
        (\<exists>out. Info S e l [VString ''build'', VString '' '', VString ''ok''] = Inr (l, [Stdout out])
           \<and> sublist '' INFO '' out \<and> sublist ''build ok'' out))"
proof -
  have 5: "Sprint [VString ''build'', VString '' '', VString ''ok''] = ''build ok''"
    by (simp add: Sprint_def)
  let ?preI = "''['' @ formatTextExt S (bold S) (brightGreen S) '' INFO '' @ ''] ''
            @ formatTextExt S (dim S) (italic S) (currentDate e) @ '' ''
            @ formatText S (underline S) (currentTime e) @ '' ''"
  let ?preW = "''['' @ formatTextExt S (bold S) (orange S) '' WARN '' @ ''] ''
            @ formatTextExt S (dim S) (italic S) (currentDate e) @ '' ''
            @ formatText S (underline S) (currentTime e) @ '' ''"
  have I: "\<And>args. Info S e l args = Inr (l, [Stdout (?preI @ formatText S (bold S) (Sprint args) @ [CHR 0x0A])])"
    by (simp add: Info_def Println_def Let_def)
  have 6: "\<exists>pre. Info S e l args = Inr (l, [Stdout (pre @ formatText S (bold S) (Sprint args) @ [CHR 0x0A])])"
    by (rule exI [of _ ?preI]) (rule I)
  have W: "Warn S e l args = Inr (l, [Stdout (?preW @ formatText S (bold S) (Sprint args) @ [CHR 0x0A])])"
    by (simp add: Warn_def Println_def Let_def)
  have 7: "\<exists>pre. Warn S e l args = Inr (l, [Stdout (pre @ formatText S (bold S) (Sprint args) @ [CHR 0x0A])])"
    by (rule exI [of _ ?preW]) (rule W)
  have 8: "args \<noteq> [] \<longrightarrow> (\<forall>m \<in> {MInfoC, MWarnC, MDebug}. \<exists>header.
         call S m e l args = Inr (l, [Stdout header,
           Stdout (arrow @ '' '' @ formatTextExt S (bold S) (brightYellow S) (Sprint args) @ [CHR 0x0A])]))"
    by (simp add: InfoC_def WarnC_def Debug_def Println_def Let_def)
  have 9: "cache l \<noteq> None \<longrightarrow> (\<exists>l'. Error S e l args = Inr (l', [PkgError [VString (Sprint args)]]))"
    by (auto simp add: Error_def addCache_def)
  have 10: "(\<forall>s t. sublist t (formatText S s t)) \<and> (\<forall>s1 s2 t. sublist t (formatTextExt S s1 s2 t)) \<longrightarrow>
        (\<exists>out. Info S e l [VString ''build'', VString '' '', VString ''ok''] = Inr (l, [Stdout out])
           \<and> sublist '' INFO '' out \<and> sublist ''build ok'' out)"
  proof
    assume w: "(\<forall>s t. sublist t (formatText S s t)) \<and> (\<forall>s1 s2 t. sublist t (formatTextExt S s1 s2 t))"
    let ?rest = "''] '' @ formatTextExt S (dim S) (italic S) (currentDate e) @ '' ''
            @ formatText S (underline S) (currentTime e) @ '' ''
            @ formatText S (bold S) ''build ok'' @ [CHR 0x0A]"
    let ?out = "?preI @ formatText S (bold S) ''build ok'' @ [CHR 0x0A]"
    have o: "Info S e l [VString ''build'', VString '' '', VString ''ok''] = Inr (l, [Stdout ?out])"
      using I [of "[VString ''build'', VString '' '', VString ''ok'']"] by (simp only: 5)
    from w have "sublist '' INFO '' (formatTextExt S (bold S) (brightGreen S) '' INFO '')" by blast
    then have "sublist '' INFO '' (''['' @ formatTextExt S (bold S) (brightGreen S) '' INFO '' @ ?rest)"
      by (rule sublist_mid)
    then have a: "sublist '' INFO '' ?out" by simp
    from w have "sublist ''build ok'' (formatText S (bold S) ''build ok'')" by blast
    then have b: "sublist ''build ok'' ?out"
      by (rule sublist_mid)
    show "\<exists>out. Info S e l [VString ''build'', VString '' '', VString ''ok''] = Inr (l, [Stdout out])
           \<and> sublist '' INFO '' out \<and> sublist ''build ok'' out"
      by (rule exI [of _ ?out]) (intro conjI o a b)
  qed
  show ?thesis
    by (intro conjI Sprint_Nil Sprint_single Sprint_Cons2 Sprint_strings 5 6 7 8 9 10)
qed

theorem message_body_is_Sprint_witness:
  "(\<forall>s t. sublist t (formatText S0 s t)) \<and> (\<forall>s1 s2 t. sublist t (formatTextExt S0 s1 s2 t))
   \<and> Info S0 e1 (New None) [VString ''build'', VString '' '', VString ''ok'']
       = Inr (New None, [Stdout (''[<b><g> INFO !] <d><i>2025-01-02! <u>03:04:05! <b>build ok!'' @ [CHR 0x0A])])
   \<and> sublist '' INFO '' (''[<b><g> INFO !] <d><i>2025-01-02! <u>03:04:05! <b>build ok!'' @ [CHR 0x0A])
   \<and> sublist ''build ok'' (''[<b><g> INFO !] <d><i>2025-01-02! <u>03:04:05! <b>build ok!'' @ [CHR 0x0A])
   \<and> Sprint [VInt 1, VInt 2, VString ''x'', VInt 3, VBool True] = ''1 2x3 true''
   \<and> [VString ''low disk''] \<noteq> [] \<and> cache (New None) \<noteq> None
   \<and> call S0 MDebug e1 (New None) [VString ''low disk'']
       = Inr (New None, [Stdout (''[<b><m> DBUG !] <d><i>2025-01-02! <u>03:04:05! (<bl>main.main!:<b>42!)'' @ [CHR 0x0A]),
                         Stdout (arrow @ '' <b><y>low disk!'' @ [CHR 0x0A])])"
proof -
  have w1: "\<forall>s t. sublist t (formatText S0 s t)"
    by (simp add: S0_def sublist_appendI)
  have w2: "\<forall>s1 s2 t. sublist t (formatTextExt S0 s1 s2 t)"
    by (simp add: S0_def sublist_mid [of _ _ _ "[]", simplified])
  have i: "Info S0 e1 (New None) [VString ''build'', VString '' '', VString ''ok'']
       = Inr (New None, [Stdout (''[<b><g> INFO !] <d><i>2025-01-02! <u>03:04:05! <b>build ok!'' @ [CHR 0x0A])])"
    by (simp add: Info_def Println_def Sprint_def S0_def e1_def)
  have d: "call S0 MDebug e1 (New None) [VString ''low disk'']
       = Inr (New None, [Stdout (''[<b><m> DBUG !] <d><i>2025-01-02! <u>03:04:05! (<bl>main.main!:<b>42!)'' @ [CHR 0x0A]),
                         Stdout (arrow @ '' <b><y>low disk!'' @ [CHR 0x0A])])"
    by (simp add: Debug_def Println_def Sprint_def S0_def e1_def fName_def callerLine_def Itoa_42)
  have c: "cache (New None) \<noteq> None" by (simp add: New_def)
  from message_body_is_Sprint [of "VInt 1" "VInt 2" "[VString ''x'', VInt 3, VBool True]" "[]" S0 e1 "New None"
      "[VString ''low disk'']"] w1 w2 i
  have s: "sublist '' INFO '' (''[<b><g> INFO !] <d><i>2025-01-02! <u>03:04:05! <b>build ok!'' @ [CHR 0x0A])
    \<and> sublist ''build ok'' (''[<b><g> INFO !] <d><i>2025-01-02! <u>03:04:05! <b>build ok!'' @ [CHR 0x0A])"
    by simp
  have p: "Sprint [VInt 1, VInt 2, VString ''x'', VInt 3, VBool True] = ''1 2x3 true''"
    by (simp add: Sprint_def Itoa_def digits.simps)
  from w1 w2 i s p c d show ?thesis by simp
qed

section \<open>Caller context\<close>

lemma Itoa_7: "Itoa 7 = ''7''"
  by (simp add: Itoa_def digits.simps)

lemma call_header_C:
  "m \<in> {MInfoC, MWarnC, MDebug} \<Longrightarrow>
   \<exists>pre rest. call S m e l args
     = Inr (l, Stdout (pre @ '' ('' @ formatText S (brightBlue S) (fName e) @ '':''
                 @ formatText S (bold S) (Itoa (callerLine e)) @ '')'' @ [CHR 0x0A]) # rest)"
proof -
  let ?d = "formatTextExt S (dim S) (italic S) (currentDate e) @ '' ''
            @ formatText S (underline S) (currentTime e)"
  let ?c = "'' ('' @ formatText S (brightBlue S) (fName e) @ '':''
                 @ formatText S (bold S) (Itoa (callerLine e)) @ '')'' @ [CHR 0x0A]"
  let ?rest = "if length args > 0
               then Println [VString arrow, VString (formatTextExt S (bold S) (brightYellow S) (Sprint args))]
               else []"
  have i: "call S MInfoC e l args
      = Inr (l, Stdout ((''['' @ formatTextExt S (bold S) (brightGreen S) '' INFO '' @ ''] '' @ ?d) @ ?c) # ?rest)"
    by (simp add: InfoC_def Println_def Let_def)
  have w: "call S MWarnC e l args
      = Inr (l, Stdout ((''['' @ formatTextExt S (bold S) (orange S) '' WARN '' @ ''] '' @ ?d) @ ?c) # ?rest)"
    by (simp add: WarnC_def Println_def Let_def)
  have d: "call S MDebug e l args
      = Inr (l, Stdout ((''['' @ formatTextExt S (bold S) (magenta S) '' DBUG '' @ ''] '' @ ?d) @ ?c) # ?rest)"
    by (simp add: Debug_def Println_def Let_def)
  assume "m \<in> {MInfoC, MWarnC, MDebug}"
  then consider "m = MInfoC" | "m = MWarnC" | "m = MDebug" by auto
  then show ?thesis
  proof cases
    case 1
    show ?thesis unfolding 1
      by (rule exI [of _ "''['' @ formatTextExt S (bold S) (brightGreen S) '' INFO '' @ ''] '' @ ?d"],
          rule exI [of _ ?rest], rule i)
  next
    case 2
    show ?thesis unfolding 2
      by (rule exI [of _ "''['' @ formatTextExt S (bold S) (orange S) '' WARN '' @ ''] '' @ ?d"],
          rule exI [of _ ?rest], rule w)
  next
    case 3
    show ?thesis unfolding 3
      by (rule exI [of _ "''['' @ formatTextExt S (bold S) (magenta S) '' DBUG '' @ ''] '' @ ?d"],
          rule exI [of _ ?rest], rule d)
  qed
qed

lemma fName_unresolved:
  "caller e = (pc, file, line, ok) \<Longrightarrow> funcForPC e pc = None \<Longrightarrow> fName e = []"
  by (simp add: fName_def)

lemma call_returns: "cache l = Some c0 \<Longrightarrow> \<exists>l' out. call S m e l args = Inr (l', out)"
  by (cases m)
     (simp_all add: Error_def addCache_def Info_def InfoC_def Warn_def WarnC_def Debug_def Let_def)

text \<open>
  C3, as stated, fails: \<open>Debug\<close> is not one of the context variants and is not \<open>Error\<close>,
  yet it reads the calling frame and prints the function name and the line; two
  environments that differ only in the calling frame give different output.
\<close>

theorem Debug_renders_caller_counterexample:
  "call S0 MDebug e1 (New None) []
     = Inr (New None, [Stdout (''[<b><m> DBUG !] <d><i>2025-01-02! <u>03:04:05! (<bl>main.main!:<b>42!)'' @ [CHR 0x0A])])
   \<and> call S0 MDebug (e1\<lparr>caller := (9, ''other.go'', 7, True), funcForPC := [9 \<mapsto> ''pkg.f'']\<rparr>) (New None) []
     = Inr (New None, [Stdout (''[<b><m> DBUG !] <d><i>2025-01-02! <u>03:04:05! (<bl>pkg.f!:<b>7!)'' @ [CHR 0x0A])])
   \<and> call S0 MDebug e1 (New None) []
     \<noteq> call S0 MDebug (e1\<lparr>caller := (9, ''other.go'', 7, True), funcForPC := [9 \<mapsto> ''pkg.f'']\<rparr>) (New None) []"
  by (simp add: Debug_def Println_def Sprint_def S0_def e1_def fName_def callerLine_def Itoa_42 Itoa_7)

text \<open>
  C3, amended. \<open>Info\<close> and \<open>Warn\<close> do not depend on the calling frame. \<open>InfoC\<close>,
  \<open>WarnC\<close> and \<open>Debug\<close> print the styled function name and line of the calling frame at
  the end of the header line, and \<open>Error\<close> writes them at the end of the cached content.
\<close>

theorem caller_context_methods:
  "call S MInfo (e\<lparr>caller := cl, funcForPC := f\<rparr>) l args = call S MInfo e l args
   \<and> call S MWarn (e\<lparr>caller := cl, funcForPC := f\<rparr>) l args = call S MWarn e l args
   \<and> (\<forall>m \<in> {MInfoC, MWarnC, MDebug}. \<exists>pre rest. call S m e l args
        = Inr (l, Stdout (pre @ '' ('' @ formatText S (brightBlue S) (fName e) @ '':''
                 @ formatText S (bold S) (Itoa (callerLine e)) @ '')'' @ [CHR 0x0A]) # rest))
   \<and> (cache l = Some c0 \<longrightarrow> (\<exists>pre out. call S MError e l args
        = Inr (l\<lparr>cache := Some (c0(now e \<mapsto> pre @ '' ('' @ fName e @ '':'' @ Itoa (callerLine e) @ '')''))\<rparr>, out)))"
proof -
  have 1: "call S MInfo (e\<lparr>caller := cl, funcForPC := f\<rparr>) l args = call S MInfo e l args"
    by (simp add: Info_def)
  have 2: "call S MWarn (e\<lparr>caller := cl, funcForPC := f\<rparr>) l args = call S MWarn e l args"
    by (simp add: Warn_def)
  have 3: "\<forall>m \<in> {MInfoC, MWarnC, MDebug}. \<exists>pre rest. call S m e l args
        = Inr (l, Stdout (pre @ '' ('' @ formatText S (brightBlue S) (fName e) @ '':''
                 @ formatText S (bold S) (Itoa (callerLine e)) @ '')'' @ [CHR 0x0A]) # rest)"
    by (rule ballI) (rule call_header_C)
  have 4: "cache l = Some c0 \<longrightarrow> (\<exists>pre out. call S MError e l args
        = Inr (l\<lparr>cache := Some (c0(now e \<mapsto> pre @ '' ('' @ fName e @ '':'' @ Itoa (callerLine e) @ '')''))\<rparr>, out))"
  proof
    assume c: "cache l = Some c0"
    have "call S MError e l args
       = Inr (l\<lparr>cache := Some (c0(now e \<mapsto> (''[ ERROR] '' @ currentDate e @ '' '' @ currentTime e)
            @ '' ('' @ fName e @ '':'' @ Itoa (callerLine e) @ '')''))\<rparr>, [PkgError [VString (Sprint args)]])"
      using c by (simp add: Error_def addCache_def contentRaw_def)
    then show "\<exists>pre out. call S MError e l args
        = Inr (l\<lparr>cache := Some (c0(now e \<mapsto> pre @ '' ('' @ fName e @ '':'' @ Itoa (callerLine e) @ '')''))\<rparr>, out)"
      by (intro exI [of _ "''[ ERROR] '' @ currentDate e @ '' '' @ currentTime e"]
                exI [of _ "[PkgError [VString (Sprint args)]]"])
  qed
  show ?thesis by (intro conjI 1 2 3 4)
qed

theorem caller_context_methods_witness:
  "call S0 MInfo (e1\<lparr>caller := (9, ''other.go'', 7, True), funcForPC := [9 \<mapsto> ''pkg.f'']\<rparr>) (New None) [VString ''a'']
     = Inr (New None, [Stdout (''[<b><g> INFO !] <d><i>2025-01-02! <u>03:04:05! <b>a!'' @ [CHR 0x0A])])
   \<and> call S0 MInfo e1 (New None) [VString ''a'']
     = Inr (New None, [Stdout (''[<b><g> INFO !] <d><i>2025-01-02! <u>03:04:05! <b>a!'' @ [CHR 0x0A])])
   \<and> MInfoC \<in> {MInfoC, MWarnC, MDebug}
   \<and> cache (New None) = Some Map.empty
   \<and> call S0 MInfoC e1 (New None) []
     = Inr (New None, [Stdout (''[<b><g> INFO !] <d><i>2025-01-02! <u>03:04:05! (<bl>main.main!:<b>42!)'' @ [CHR 0x0A])])"
  using caller_context_methods [where S = S0 and e = e1 and cl = "(9, ''other.go'', 7, True)"
      and f = "[9 \<mapsto> ''pkg.f'']" and l = "New None" and args = "[VString ''a'']" and ?c0.0 = Map.empty]
  by (simp add: Info_def InfoC_def Println_def Sprint_def S0_def e1_def New_def fName_def callerLine_def Itoa_42)

text \<open>
  C5, as stated, fails: with an unresolved calling frame (\<open>ok\<close> false, zero values, no
  function at the program counter) the function name is rendered as the empty string,
  but the line is rendered as \<open>0\<close>, not as an empty string.
\<close>

theorem unresolved_frame_line_counterexample:
  "snd (snd (snd (caller e0))) = False
   \<and> funcForPC e0 (fst (caller e0)) = None
   \<and> observe (Error S0 e0 (New None) [])
       = Inr (Some [t2 \<mapsto> ''[ ERROR] 2025-01-02 03:04:05 (:0)''], [PkgError [VString []]])
   \<and> observe (Error S0 e0 (New None) [])
       \<noteq> Inr (Some [t2 \<mapsto> ''[ ERROR] 2025-01-02 03:04:05 (:)''], [PkgError [VString []]])
   \<and> InfoC S0 e0 (New None) []
       = Inr (New None, [Stdout (''[<b><g> INFO !] <d><i>2025-01-02! <u>03:04:05! (<bl>!:<b>0!)'' @ [CHR 0x0A])])"
proof -
  have "[t2 \<mapsto> ''[ ERROR] 2025-01-02 03:04:05 (:0)''] t2 \<noteq> [t2 \<mapsto> ''[ ERROR] 2025-01-02 03:04:05 (:)''] t2"
    by simp
  then have "[t2 \<mapsto> ''[ ERROR] 2025-01-02 03:04:05 (:0)''] \<noteq> [t2 \<mapsto> ''[ ERROR] 2025-01-02 03:04:05 (:)'']"
    by metis
  then show ?thesis
    by (simp add: observe_def Error_def addCache_def contentRaw_def InfoC_def Println_def Sprint_def
        S0_def e0_def New_def fName_def callerLine_def Itoa_0)
qed

text \<open>
  C5, amended. When the calling frame is not resolved, every public call on a logger with
  an initialised cache returns without a panic; the function name is rendered as the
  empty string and the line as the decimal rendering of the line the runtime reports,
  which is never empty.
\<close>

theorem unresolved_frame_tolerated:
  assumes "caller e = (pc, file, line, False)" and "funcForPC e pc = None" and "cache l = Some c0"
  shows "fName e = [] \<and> Itoa line \<noteq> []
     \<and> (\<exists>l' out. call S m e l args = Inr (l', out))
     \<and> contentRaw e = ''[ ERROR] '' @ currentDate e @ '' '' @ currentTime e @ '' (:'' @ Itoa line @ '')''
     \<and> (\<forall>m \<in> {MInfoC, MWarnC, MDebug}. \<exists>pre rest. call S m e l args
          = Inr (l, Stdout (pre @ '' ('' @ formatText S (brightBlue S) [] @ '':''
                 @ formatText S (bold S) (Itoa line) @ '')'' @ [CHR 0x0A]) # rest))"
proof -
  have f: "fName e = []" using assms(1,2) by (rule fName_unresolved)
  have n: "callerLine e = line" using assms(1) by (simp add: callerLine_def)
  have c: "contentRaw e = ''[ ERROR] '' @ currentDate e @ '' '' @ currentTime e @ '' (:'' @ Itoa line @ '')''"
    by (simp add: contentRaw_def f n)
  have h: "\<forall>m \<in> {MInfoC, MWarnC, MDebug}. \<exists>pre rest. call S m e l args
          = Inr (l, Stdout (pre @ '' ('' @ formatText S (brightBlue S) [] @ '':''
                 @ formatText S (bold S) (Itoa line) @ '')'' @ [CHR 0x0A]) # rest)"
    using call_header_C [of _ S e l args] unfolding f n by (rule ballI)
  show ?thesis
    by (intro conjI f Itoa_not_Nil call_returns [OF assms(3)] c h)
qed

theorem unresolved_frame_tolerated_witness:
  "caller e0 = (0, [], 0, False) \<and> funcForPC e0 0 = None \<and> cache (New None) = Some Map.empty
   \<and> fName e0 = [] \<and> Itoa 0 = ''0''
   \<and> contentRaw e0 = ''[ ERROR] 2025-01-02 03:04:05 (:0)''
   \<and> (\<exists>l' out. call S0 MError e0 (New None) [VString ''x''] = Inr (l', out))"
proof -
  have a: "caller e0 = (0, [], 0, False)" by (simp add: e0_def)
  have b: "funcForPC e0 0 = None" by (simp add: e0_def)
  have c: "cache (New None) = Some Map.empty" by (simp add: New_def)
  note t = unresolved_frame_tolerated [OF a b c, of S0 MError "[VString ''x'']"]
  have "fName e0 = []"
    and "contentRaw e0 = ''[ ERROR] '' @ currentDate e0 @ '' '' @ currentTime e0 @ '' (:'' @ Itoa 0 @ '')''"
    and "\<exists>l' out. call S0 MError e0 (New None) [VString ''x''] = Inr (l', out)"
    by (rule t [THEN conjunct1],
        rule t [THEN conjunct2, THEN conjunct2, THEN conjunct2, THEN conjunct1],
        rule t [THEN conjunct2, THEN conjunct2, THEN conjunct1])
  then show ?thesis using a b c by (simp add: Itoa_0 e0_def)
qed

end
